theory Spec2Isabelle
  imports Complex_Main
begin

section \<open>The player component of \<^verbatim>\<open>src/App.tsx\<close>\<close>

text \<open>
  \<^verbatim>\<open>App\<close> is a React function component. Its state lives in nine \<^verbatim>\<open>useState\<close> cells, one
  \<^verbatim>\<open>useRef\<close> to the \<^verbatim>\<open>audio\<close> element and two cells for the Web Audio context. Every event
  handler reads the cells of the current render and queues new values; the model passes the
  state explicitly: a handler takes the state it was rendered with and returns the state of
  the next render. JavaScript numbers are modelled as \<^typ>\<open>real\<close> for times and volumes and as
  \<^typ>\<open>int\<close> for list indices (\<^verbatim>\<open>NaN\<close> and fractional indices are not modelled).
\<close>

subsection \<open>Data (\<^verbatim>\<open>src/types.ts\<close> and the state cells)\<close>

record track =
  track_id :: string
  url :: string
  title :: string
  artist :: string

datatype RepeatMode = RepeatOff | RepeatAll | RepeatOne

text \<open>
  The \<^verbatim>\<open>HTMLAudioElement\<close> behind \<^verbatim>\<open>audioRef\<close> is the browser's, not the repository's. The
  record holds the properties the component assigns or reads (\<^verbatim>\<open>src\<close>, \<^verbatim>\<open>currentTime\<close>,
  \<^verbatim>\<open>duration\<close>, \<^verbatim>\<open>volume\<close>) with the value last assigned, \<open>paused\<close> for the last of
  \<^verbatim>\<open>play()\<close> and \<^verbatim>\<open>pause()\<close> that was called, and \<open>loads\<close>, a history counter of the calls of
  \<^verbatim>\<open>load()\<close>. No code of the component reads \<open>loads\<close>; it tells a state in which a track was
  loaded again from a state that was left alone. What the browser itself does on these calls
  (resetting the time on \<^verbatim>\<open>load()\<close>, rejecting a volume outside 0 to 1) is not modelled.
\<close>

record audio =
  src :: string
  currentTime :: real
  elemDuration :: real
  elemVolume :: real
  paused :: bool
  loads :: nat

record app =
  tracks :: "track list"
  currentTrackIndex :: "int option"
  isPlaying :: bool
  progress :: real
  volume :: real
  isMuted :: bool
  duration :: real
  repeatMode :: RepeatMode
  isShuffle :: bool
  audioRef :: "audio option"
  audioContext :: bool

text \<open>The hooks' initial values (lines 8 to 22): \<^verbatim>\<open>audioRef\<close> is \<^verbatim>\<open>null\<close> until the first commit.\<close>

definition initialApp :: app where
  "initialApp =
     \<lparr>tracks = [], currentTrackIndex = None, isPlaying = False, progress = 0,
      volume = 0.75, isMuted = False, duration = 0, repeatMode = RepeatOff,
      isShuffle = False, audioRef = None, audioContext = False\<rparr>"

text \<open>
  A fresh \<^verbatim>\<open>audio\<close> element: no source, stopped, full volume. (Its duration is \<^verbatim>\<open>NaN\<close> in
  the browser; the component reads it only on \<^verbatim>\<open>loadedmetadata\<close>, when it is known.)
\<close>

definition freshAudio :: audio where
  "freshAudio =
     \<lparr>src = [], currentTime = 0, elemDuration = 0, elemVolume = 1, paused = True, loads = 0\<rparr>"

text \<open>After the first commit React has stored the rendered element in \<^verbatim>\<open>audioRef.current\<close>.\<close>

definition mountedApp :: app where
  "mountedApp = initialApp\<lparr>audioRef := Some freshAudio\<rparr>"

subsection \<open>The element's methods\<close>

definition load :: "audio \<Rightarrow> audio" where
  "load a = a\<lparr>loads := Suc (loads a)\<rparr>"

definition play :: "audio \<Rightarrow> audio" where
  "play a = a\<lparr>paused := False\<rparr>"

definition pause :: "audio \<Rightarrow> audio" where
  "pause a = a\<lparr>paused := True\<rparr>"

subsection \<open>Handlers\<close>

text \<open>\<^verbatim>\<open>setupAudioContext\<close>, lines 24 to 36: creates the context once an element exists.\<close>

definition setupAudioContext :: "app \<Rightarrow> app" where
  "setupAudioContext s =
     (if \<not> audioContext s \<and> audioRef s \<noteq> None then s\<lparr>audioContext := True\<rparr> else s)"

text \<open>
  \<^verbatim>\<open>handleFileChange\<close>, lines 38 to 55. The argument is \<^verbatim>\<open>newTracks\<close>, the list built from the
  picked audio files (\<open>None\<close> when \<^verbatim>\<open>event.target.files\<close> is \<^verbatim>\<open>null\<close>); building it from
  files is ingestion and not modelled.
\<close>

definition handleFileChange :: "track list option \<Rightarrow> app \<Rightarrow> app" where
  "handleFileChange files s =
     (case files of
        None \<Rightarrow> s
      | Some newTracks \<Rightarrow>
          (let s1 = s\<lparr>tracks := tracks s @ newTracks\<rparr>
           in if currentTrackIndex s = None \<and> length newTracks > 0
              then s1\<lparr>currentTrackIndex := Some 0\<rparr> else s1))"

text \<open>\<^verbatim>\<open>playTrack\<close>, lines 57 to 67. The guard is the only range check of the component.\<close>

definition playTrack :: "int \<Rightarrow> app \<Rightarrow> app" where
  "playTrack index s =
     (if index \<ge> 0 \<and> index < int (length (tracks s)) then
        (let s1 = s\<lparr>currentTrackIndex := Some index, isPlaying := True\<rparr>
         in case audioRef s of
              None \<Rightarrow> s1
            | Some a \<Rightarrow>
                s1\<lparr>audioRef := Some (play (load (a\<lparr>src := url (tracks s ! nat index)\<rparr>)))\<rparr>)
      else s)"

text \<open>
  \<^verbatim>\<open>playNext\<close>, lines 69 to 94. \<open>pick\<close> is the value of
  \<^verbatim>\<open>Math.floor(Math.random() * tracks.length)\<close> as the engine computes it (the floating-point
  product is not modelled); it is read only in the shuffle branch. The test
  \<^verbatim>\<open>repeatMode === 'one' && currentTrackIndex !== null\<close> is the outer \<open>case\<close>: it finds
  \<open>Some current\<close> exactly when both hold. The inner \<open>case\<close> is \<^verbatim>\<open>currentTrackIndex ?? -1\<close>.
\<close>

definition playNext :: "int \<Rightarrow> app \<Rightarrow> app" where
  "playNext pick s =
     (if length (tracks s) = 0 then s
      else case (if repeatMode s = RepeatOne then currentTrackIndex s else None) of
        Some current \<Rightarrow> playTrack current s
      | None \<Rightarrow>
          if isShuffle s then playTrack pick s
          else
            (let nextIndex = (case currentTrackIndex s of None \<Rightarrow> - 1 | Some i \<Rightarrow> i) + 1
             in if nextIndex \<ge> int (length (tracks s)) then
                  (if repeatMode s = RepeatAll then playTrack 0 s
                   else s\<lparr>isPlaying := False, currentTrackIndex := None\<rparr>)
                else playTrack nextIndex s))"

text \<open>
  \<^verbatim>\<open>togglePlayPause\<close>, lines 127 to 145. The second \<^verbatim>\<open>if\<close> is entered whenever an element
  exists; the handler has no test of its own for an empty queue.
\<close>

definition togglePlayPause :: "app \<Rightarrow> app" where
  "togglePlayPause s0 =
     (let s = (if \<not> audioContext s0 then setupAudioContext s0 else s0)
      in if currentTrackIndex s = None \<and> length (tracks s) > 0 then playTrack 0 s
         else case audioRef s of
                None \<Rightarrow> s
              | Some a \<Rightarrow>
                  s\<lparr>audioRef := Some (if isPlaying s then pause a else play a),
                    isPlaying := \<not> isPlaying s\<rparr>)"

text \<open>
  JavaScript's \<^verbatim>\<open>%\<close> on integers truncates towards zero: the result has the sign of the
  dividend. (A zero divisor gives \<^verbatim>\<open>NaN\<close>; \<^verbatim>\<open>playPrev\<close> returns before dividing by zero.)
\<close>

definition jsRem :: "int \<Rightarrow> int \<Rightarrow> int" where
  "jsRem a b = (if a < 0 then - ((- a) mod \<bar>b\<bar>) else a mod \<bar>b\<bar>)"

text \<open>\<^verbatim>\<open>playPrev\<close>, lines 147 to 151.\<close>

definition playPrev :: "app \<Rightarrow> app" where
  "playPrev s =
     (case currentTrackIndex s of
        None \<Rightarrow> s
      | Some current \<Rightarrow>
          if length (tracks s) = 0 then s
          else playTrack (jsRem (current - 1 + int (length (tracks s))) (int (length (tracks s)))) s)"

text \<open>
  \<^verbatim>\<open>handleProgressChange\<close>, lines 153 to 159: the slider's value goes to the element and to
  \<^verbatim>\<open>progress\<close> as it comes.
\<close>

definition handleProgressChange :: "real \<Rightarrow> app \<Rightarrow> app" where
  "handleProgressChange newTime s =
     (case audioRef s of
        None \<Rightarrow> s
      | Some a \<Rightarrow> s\<lparr>audioRef := Some (a\<lparr>currentTime := newTime\<rparr>), progress := newTime\<rparr>)"

text \<open>\<^verbatim>\<open>handleVolumeChange\<close>, lines 161 to 168.\<close>

definition handleVolumeChange :: "real \<Rightarrow> app \<Rightarrow> app" where
  "handleVolumeChange newVolume s =
     s\<lparr>volume := newVolume, isMuted := (newVolume = 0),
       audioRef := map_option (\<lambda>a. a\<lparr>elemVolume := newVolume\<rparr>) (audioRef s)\<rparr>"

text \<open>\<^verbatim>\<open>toggleMute\<close>, lines 170 to 175. \<^verbatim>\<open>isMuted\<close> in the body is the value before the toggle.\<close>

definition toggleMute :: "app \<Rightarrow> app" where
  "toggleMute s =
     s\<lparr>isMuted := \<not> isMuted s,
       audioRef :=
         map_option (\<lambda>a. a\<lparr>elemVolume := (if \<not> isMuted s then 0 else volume s)\<rparr>) (audioRef s)\<rparr>"

text \<open>\<^verbatim>\<open>toggleRepeatMode\<close>, lines 177 to 181, with \<^verbatim>\<open>Array.prototype.indexOf\<close>.\<close>

fun indexOf :: "'a list \<Rightarrow> 'a \<Rightarrow> int" where
  "indexOf [] x = - 1"
| "indexOf (y # ys) x = (if y = x then 0 else (let r = indexOf ys x in if r < 0 then r else r + 1))"

definition modes :: "RepeatMode list" where
  "modes = [RepeatOff, RepeatAll, RepeatOne]"

definition toggleRepeatMode :: "app \<Rightarrow> app" where
  "toggleRepeatMode s =
     s\<lparr>repeatMode := modes ! nat (jsRem (indexOf modes (repeatMode s) + 1) (int (length modes)))\<rparr>"

text \<open>The shuffle button's inline handler, line 269.\<close>

definition toggleShuffle :: "app \<Rightarrow> app" where
  "toggleShuffle s = s\<lparr>isShuffle := \<not> isShuffle s\<rparr>"

subsection \<open>Notifications of the element and effects\<close>

text \<open>
  The listeners registered at lines 99 to 109. They take no argument: each reads the
  element at the moment it runs. Without an element nothing is registered.
\<close>

definition setAudioData :: "app \<Rightarrow> app" where
  "setAudioData s =
     (case audioRef s of
        None \<Rightarrow> s
      | Some a \<Rightarrow> s\<lparr>duration := elemDuration a, progress := currentTime a\<rparr>)"

definition handleTimeUpdate :: "app \<Rightarrow> app" where
  "handleTimeUpdate s =
     (case audioRef s of None \<Rightarrow> s | Some a \<Rightarrow> s\<lparr>progress := currentTime a\<rparr>)"

definition handleEnded :: "int \<Rightarrow> app \<Rightarrow> app" where
  "handleEnded pick s = (case audioRef s of None \<Rightarrow> s | Some a \<Rightarrow> playNext pick s)"

datatype notification = LoadedMetadata | TimeUpdate | Ended

fun onNotification :: "int \<Rightarrow> notification \<Rightarrow> app \<Rightarrow> app" where
  "onNotification pick LoadedMetadata s = setAudioData s"
| "onNotification pick TimeUpdate s = handleTimeUpdate s"
| "onNotification pick Ended s = handleEnded pick s"

text \<open>Line 111, run after a render in which \<^verbatim>\<open>volume\<close>, \<^verbatim>\<open>isMuted\<close> or \<^verbatim>\<open>playNext\<close> changed.\<close>

definition volumeEffect :: "app \<Rightarrow> app" where
  "volumeEffect s =
     s\<lparr>audioRef :=
         map_option (\<lambda>a. a\<lparr>elemVolume := (if isMuted s then 0 else volume s)\<rparr>) (audioRef s)\<rparr>"

text \<open>
  Lines 121 to 125: a selected track is started when the element has no source yet
  (\<^verbatim>\<open>!audioRef.current?.src\<close> is true for a missing element and for the empty string).
\<close>

definition autoPlayEffect :: "app \<Rightarrow> app" where
  "autoPlayEffect s =
     (case currentTrackIndex s of
        None \<Rightarrow> s
      | Some current \<Rightarrow>
          if (case audioRef s of None \<Rightarrow> True | Some a \<Rightarrow> src a = [])
          then playTrack current s else s)"

text \<open>The browser moving the element on: playback time and known duration change by themselves.\<close>

definition deviceReports :: "real \<Rightarrow> real \<Rightarrow> app \<Rightarrow> app" where
  "deviceReports t d s =
     s\<lparr>audioRef := map_option (\<lambda>a. a\<lparr>currentTime := t, elemDuration := d\<rparr>) (audioRef s)\<rparr>"

subsection \<open>What the page delivers\<close>

text \<open>
  \<^verbatim>\<open>currentTrack\<close>, line 190: the track at the current index, \<^verbatim>\<open>null\<close> without an index and
  \<^verbatim>\<open>undefined\<close> for an index outside the queue; both count as false in \<^verbatim>\<open>!currentTrack\<close>.
\<close>

definition trackAt :: "track list \<Rightarrow> int \<Rightarrow> track option" where
  "trackAt ts i = (if 0 \<le> i \<and> i < int (length ts) then Some (ts ! nat i) else None)"

definition currentTrack :: "app \<Rightarrow> track option" where
  "currentTrack s =
     (case currentTrackIndex s of None \<Rightarrow> None | Some i \<Rightarrow> trackAt (tracks s) i)"

text \<open>
  Everything that can happen to a mounted component: a control of the page calling its
  handler, a notification from the element, the element moving on, or a render running the
  two effects.
\<close>

datatype event =
    FilesPicked "track list option"
  | TrackClicked int
  | PlayPauseClicked
  | NextClicked int
  | PrevClicked
  | ProgressMoved real
  | VolumeMoved real
  | MuteClicked
  | RepeatClicked
  | ShuffleClicked
  | Notified int notification
  | DeviceMoved real real
  | Rendered

fun dispatch :: "event \<Rightarrow> app \<Rightarrow> app" where
  "dispatch (FilesPicked files) s = handleFileChange files s"
| "dispatch (TrackClicked index) s = playTrack index s"
| "dispatch PlayPauseClicked s = togglePlayPause s"
| "dispatch (NextClicked pick) s = playNext pick s"
| "dispatch PrevClicked s = playPrev s"
| "dispatch (ProgressMoved newTime) s = handleProgressChange newTime s"
| "dispatch (VolumeMoved newVolume) s = handleVolumeChange newVolume s"
| "dispatch MuteClicked s = toggleMute s"
| "dispatch RepeatClicked s = toggleRepeatMode s"
| "dispatch ShuffleClicked s = toggleShuffle s"
| "dispatch (Notified pick n) s = onNotification pick n s"
| "dispatch (DeviceMoved t d) s = deviceReports t d s"
| "dispatch Rendered s = autoPlayEffect (volumeEffect s)"

text \<open>
  The controls as the JSX renders them (lines 226 to 312). A row exists for each index of
  the queue. The previous, play/pause and next buttons and the progress slider carry
  \<^verbatim>\<open>disabled={!currentTrack}\<close>; a disabled control delivers nothing. The sliders deliver
  values between their \<^verbatim>\<open>min\<close> and \<^verbatim>\<open>max\<close>. The other controls, the element and the renders
  are not guarded.
\<close>

fun enabled :: "event \<Rightarrow> app \<Rightarrow> bool" where
  "enabled (TrackClicked index) s = (0 \<le> index \<and> index < int (length (tracks s)))"
| "enabled PlayPauseClicked s = (currentTrack s \<noteq> None)"
| "enabled (NextClicked pick) s = (currentTrack s \<noteq> None)"
| "enabled PrevClicked s = (currentTrack s \<noteq> None)"
| "enabled (ProgressMoved newTime) s =
     (currentTrack s \<noteq> None \<and> 0 \<le> newTime \<and> newTime \<le> duration s)"
| "enabled (VolumeMoved newVolume) s = (0 \<le> newVolume \<and> newVolume \<le> 1)"
| "enabled e s = True"

definition delivered :: "event \<Rightarrow> app \<Rightarrow> app" where
  "delivered e s = (if enabled e s then dispatch e s else s)"

text \<open>The state after the first commit and its effects: the element has the stored volume.\<close>

definition syncedApp :: app where
  "syncedApp = volumeEffect mountedApp"

text \<open>The states the page can be in.\<close>

inductive reachable :: "app \<Rightarrow> bool" where
  start: "reachable syncedApp"
| step: "reachable s \<Longrightarrow> reachable (delivered e s)"

subsection \<open>Views used in the statements\<close>

text \<open>
  The eight cells the specification calls the transport state: current index, playing,
  position, duration, volume, muted, repeat mode, shuffle.
\<close>

definition transportState ::
  "app \<Rightarrow> int option \<times> bool \<times> real \<times> real \<times> real \<times> bool \<times> RepeatMode \<times> bool" where
  "transportState s =
     (currentTrackIndex s, isPlaying s, progress s, duration s, volume s, isMuted s,
      repeatMode s, isShuffle s)"

text \<open>The queue invariant of the specification: a set current index is an index of the queue.\<close>

definition indexValid :: "app \<Rightarrow> bool" where
  "indexValid s =
     (case currentTrackIndex s of
        None \<Rightarrow> True
      | Some i \<Rightarrow> 0 \<le> i \<and> i < int (length (tracks s)))"

text \<open>The transport invariant of the specification: playing needs a current index.\<close>

definition playingHasCurrent :: "app \<Rightarrow> bool" where
  "playingHasCurrent s = (if isPlaying s then currentTrackIndex s \<noteq> None else True)"

text \<open>The volume the element has been given, if there is an element.\<close>

definition outputVolume :: "app \<Rightarrow> real option" where
  "outputVolume s = map_option elemVolume (audioRef s)"

subsection \<open>How a call of \<^verbatim>\<open>playTrack\<close> completes\<close>

text \<open>
  \<^verbatim>\<open>playTrack\<close> has no \<^verbatim>\<open>throw\<close>, returns nothing and reports nothing to its caller. The one
  expression of its body that can raise is \<^verbatim>\<open>tracks[index].url\<close>, a \<^verbatim>\<open>TypeError\<close> when
  \<^verbatim>\<open>tracks[index]\<close> is \<^verbatim>\<open>undefined\<close>. \<open>playTrackResult\<close> is the same body with that
  completion made explicit: \<open>Inl\<close> for a raised error, \<open>Inr\<close> for a normal return with the
  next state.
\<close>

datatype jsError = TypeError

definition playTrackResult :: "int \<Rightarrow> app \<Rightarrow> jsError + app" where
  "playTrackResult index s =
     (if index \<ge> 0 \<and> index < int (length (tracks s)) then
        (let s1 = s\<lparr>currentTrackIndex := Some index, isPlaying := True\<rparr>
         in case audioRef s of
              None \<Rightarrow> Inr s1
            | Some a \<Rightarrow>
                (case trackAt (tracks s) index of
                   None \<Rightarrow> Inl TypeError
                 | Some t \<Rightarrow> Inr (s1\<lparr>audioRef := Some (play (load (a\<lparr>src := url t\<rparr>)))\<rparr>)))
      else Inr s)"

subsection \<open>Concrete runs\<close>

definition trackA :: track where
  "trackA = \<lparr>track_id = ''a.mp3-1-1'', url = ''blob:a'', title = ''a'', artist = ''Unknown Artist''\<rparr>"

definition trackB :: track where
  "trackB = \<lparr>track_id = ''b.mp3-2-1'', url = ''blob:b'', title = ''b'', artist = ''Unknown Artist''\<rparr>"

definition trackC :: track where
  "trackC = \<lparr>track_id = ''c.mp3-3-1'', url = ''blob:c'', title = ''c'', artist = ''Unknown Artist''\<rparr>"

text \<open>The files A, B, C have been picked; the render that follows has not run its effects yet.\<close>

definition loadedApp :: app where
  "loadedApp = handleFileChange (Some [trackA, trackB, trackC]) syncedApp"

text \<open>The effects of that render have run: the auto-play effect has started A (the first load).\<close>

definition playingA :: app where
  "playingA = autoPlayEffect (volumeEffect loadedApp)"

text \<open>The element has reported A's metadata: duration 200 seconds.\<close>

definition readyA :: app where
  "readyA = setAudioData (deviceReports 0 200 playingA)"

text \<open>The row of C, the last track, has been clicked.\<close>

definition playingC :: app where
  "playingC = playTrack 2 playingA"

text \<open>C has ended with repeat off and no shuffle: the queue is still there, nothing is selected.\<close>

definition endedApp :: app where
  "endedApp = playNext 0 playingC"

lemmas run_defs =
  initialApp_def freshAudio_def mountedApp_def syncedApp_def loadedApp_def playingA_def
  readyA_def playingC_def endedApp_def trackA_def trackB_def trackC_def
  handleFileChange_def playTrack_def playNext_def load_def play_def pause_def
  setAudioData_def handleTimeUpdate_def deviceReports_def volumeEffect_def autoPlayEffect_def

section \<open>Basic facts about \<^const>\<open>playTrack\<close>\<close>

lemma playTrack_valid:
  assumes "0 \<le> i" and "i < int (length (tracks s))"
  shows "currentTrackIndex (playTrack i s) = Some i"
    and "isPlaying (playTrack i s)"
    and "tracks (playTrack i s) = tracks s"
  using assms by (simp_all add: playTrack_def Let_def split: option.split)

lemma playTrack_invalid:
  assumes "\<not> (0 \<le> i \<and> i < int (length (tracks s)))"
  shows "playTrack i s = s"
  using assms by (auto simp: playTrack_def)

lemma playTrackResult_returns: "playTrackResult i s = Inr (playTrack i s)"
  by (simp add: playTrackResult_def playTrack_def trackAt_def Let_def split: option.split)

lemma playTrack_cases:
  "playTrack i s = s
   \<or> (currentTrackIndex (playTrack i s) = Some i \<and> isPlaying (playTrack i s)
      \<and> 0 \<le> i \<and> i < int (length (tracks s)) \<and> tracks (playTrack i s) = tracks s)"
  by (cases "0 \<le> i \<and> i < int (length (tracks s))")
    (simp_all add: playTrack_valid playTrack_invalid)

lemma jsRem_nonneg:
  assumes "0 \<le> a" and "0 < b"
  shows "jsRem a b = a mod b"
  using assms by (simp add: jsRem_def)

lemma togglePlayPause_unfold:
  "togglePlayPause s =
     (if currentTrackIndex s = None \<and> tracks s \<noteq> [] then playTrack 0 (setupAudioContext s)
      else case audioRef s of
             None \<Rightarrow> s
           | Some a \<Rightarrow>
               (setupAudioContext s)
                 \<lparr>audioRef := Some (if isPlaying s then pause a else play a),
                  isPlaying := \<not> isPlaying s\<rparr>)"
  by (auto simp: togglePlayPause_def setupAudioContext_def Let_def split: option.splits)

section \<open>The two invariants of the specification, handler by handler\<close>

text \<open>
  \<^const>\<open>indexValid\<close> is kept by every handler, notification and effect, so it holds in every
  state the component reaches from \<^const>\<open>initialApp\<close>.
\<close>

lemma indexValid_initial: "indexValid initialApp" "indexValid mountedApp"
  by (simp_all add: indexValid_def initialApp_def mountedApp_def)

lemma indexValid_playTrack: "indexValid s \<Longrightarrow> indexValid (playTrack i s)"
  using playTrack_cases [of i s] by (auto simp: indexValid_def split: option.splits)

lemma indexValid_stop: "indexValid (s\<lparr>isPlaying := False, currentTrackIndex := None\<rparr>)"
  by (simp add: indexValid_def)

lemma indexValid_playNext: "indexValid s \<Longrightarrow> indexValid (playNext pick s)"
  by (simp add: playNext_def Let_def indexValid_playTrack indexValid_stop
      split: option.splits)

lemma indexValid_playPrev: "indexValid s \<Longrightarrow> indexValid (playPrev s)"
  by (simp add: playPrev_def indexValid_playTrack split: option.splits)

lemma indexValid_setupAudioContext: "indexValid s \<Longrightarrow> indexValid (setupAudioContext s)"
  by (simp add: setupAudioContext_def indexValid_def split: option.splits)

lemma indexValid_togglePlayPause: "indexValid s \<Longrightarrow> indexValid (togglePlayPause s)"
proof -
  assume valid: "indexValid s"
  have play: "indexValid (playTrack 0 (setupAudioContext s))"
    using valid by (simp add: indexValid_playTrack indexValid_setupAudioContext)
  have toggle: "indexValid ((setupAudioContext s)\<lparr>audioRef := r, isPlaying := b\<rparr>)" for r b
    using indexValid_setupAudioContext [OF valid]
    by (simp add: indexValid_def split: option.splits)
  show ?thesis
    using valid play toggle by (simp add: togglePlayPause_unfold split: option.splits)
qed

lemma indexValid_handleFileChange: "indexValid s \<Longrightarrow> indexValid (handleFileChange files s)"
proof (cases files)
  case None
  assume "indexValid s"
  then show ?thesis
    using None by (simp add: handleFileChange_def)
next
  case (Some newTracks)
  assume valid: "indexValid s"
  show ?thesis
  proof (cases "currentTrackIndex s")
    case None
    then show ?thesis
      using Some by (cases newTracks) (simp_all add: handleFileChange_def indexValid_def)
  next
    case (Some i)
    then show ?thesis
      using valid \<open>files = Some newTracks\<close>
      by (simp add: handleFileChange_def indexValid_def)
  qed
qed

lemma indexValid_other_handlers:
  assumes "indexValid s"
  shows "indexValid (handleProgressChange t s)"
    and "indexValid (handleVolumeChange v s)"
    and "indexValid (toggleMute s)"
    and "indexValid (toggleRepeatMode s)"
    and "indexValid (toggleShuffle s)"
    and "indexValid (volumeEffect s)"
    and "indexValid (deviceReports t d s)"
  using assms
  by (simp_all add: indexValid_def handleProgressChange_def handleVolumeChange_def
      toggleMute_def toggleRepeatMode_def toggleShuffle_def volumeEffect_def
      deviceReports_def split: option.splits)

lemma indexValid_listeners:
  assumes "indexValid s"
  shows "indexValid (setAudioData s)"
    and "indexValid (handleTimeUpdate s)"
    and "indexValid (handleEnded pick s)"
proof -
  have frame: "indexValid (s\<lparr>duration := d, progress := p\<rparr>)" "indexValid (s\<lparr>progress := p\<rparr>)"
    for d p
    using assms by (simp_all add: indexValid_def split: option.splits)
  show "indexValid (setAudioData s)"
    using assms frame by (simp add: setAudioData_def split: option.splits)
  show "indexValid (handleTimeUpdate s)"
    using assms frame by (simp add: handleTimeUpdate_def split: option.splits)
  show "indexValid (handleEnded pick s)"
    using assms by (simp add: handleEnded_def indexValid_playNext split: option.splits)
qed

lemma indexValid_onNotification: "indexValid s \<Longrightarrow> indexValid (onNotification pick n s)"
  by (cases n) (simp_all add: indexValid_listeners)

lemma indexValid_autoPlayEffect: "indexValid s \<Longrightarrow> indexValid (autoPlayEffect s)"
  by (simp add: autoPlayEffect_def indexValid_playTrack split: option.splits)

lemma indexValid_dispatch: "indexValid s \<Longrightarrow> indexValid (dispatch e s)"
  by (cases e)
    (simp_all add: indexValid_handleFileChange indexValid_playTrack
      indexValid_togglePlayPause indexValid_playNext indexValid_playPrev
      indexValid_other_handlers indexValid_onNotification indexValid_autoPlayEffect)

lemma indexValid_delivered: "indexValid s \<Longrightarrow> indexValid (delivered e s)"
  by (simp add: delivered_def indexValid_dispatch)

theorem reachable_indexValid: "reachable s \<Longrightarrow> indexValid s"
proof (induction rule: reachable.induct)
  case start
  show ?case by (simp add: indexValid_def syncedApp_def volumeEffect_def mountedApp_def initialApp_def)
next
  case (step s e)
  then show ?case by (simp add: indexValid_delivered)
qed

text \<open>
  \<^const>\<open>playingHasCurrent\<close> is kept by every handler at every state, with one exception:
  \<^const>\<open>togglePlayPause\<close> keeps it when there is a current index or a track to select. The page
  calls it only with a current track.
\<close>

lemma playingHasCurrent_initial: "playingHasCurrent initialApp" "playingHasCurrent mountedApp"
  by (simp_all add: playingHasCurrent_def initialApp_def mountedApp_def)

lemma playingHasCurrent_playTrack: "playingHasCurrent s \<Longrightarrow> playingHasCurrent (playTrack i s)"
  using playTrack_cases [of i s] by (auto simp: playingHasCurrent_def)

lemma playingHasCurrent_stop:
  "playingHasCurrent (s\<lparr>isPlaying := False, currentTrackIndex := None\<rparr>)"
  by (simp add: playingHasCurrent_def)

lemma playingHasCurrent_playNext: "playingHasCurrent s \<Longrightarrow> playingHasCurrent (playNext pick s)"
  by (simp add: playNext_def Let_def playingHasCurrent_playTrack playingHasCurrent_stop
      split: option.splits)

lemma playingHasCurrent_playPrev: "playingHasCurrent s \<Longrightarrow> playingHasCurrent (playPrev s)"
  by (simp add: playPrev_def playingHasCurrent_playTrack split: option.splits)

lemma playingHasCurrent_handleFileChange:
  "playingHasCurrent s \<Longrightarrow> playingHasCurrent (handleFileChange files s)"
  by (auto simp: handleFileChange_def playingHasCurrent_def Let_def split: option.splits if_splits)

lemma playingHasCurrent_other_handlers:
  assumes "playingHasCurrent s"
  shows "playingHasCurrent (handleProgressChange t s)"
    and "playingHasCurrent (handleVolumeChange v s)"
    and "playingHasCurrent (toggleMute s)"
    and "playingHasCurrent (toggleRepeatMode s)"
    and "playingHasCurrent (toggleShuffle s)"
    and "playingHasCurrent (volumeEffect s)"
    and "playingHasCurrent (deviceReports t d s)"
  using assms
  by (auto simp: playingHasCurrent_def handleProgressChange_def handleVolumeChange_def
      toggleMute_def toggleRepeatMode_def toggleShuffle_def volumeEffect_def
      deviceReports_def split: option.splits if_splits)

lemma playingHasCurrent_listeners:
  assumes "playingHasCurrent s"
  shows "playingHasCurrent (setAudioData s)"
    and "playingHasCurrent (handleTimeUpdate s)"
    and "playingHasCurrent (handleEnded pick s)"
proof -
  have frame: "playingHasCurrent (s\<lparr>duration := d, progress := p\<rparr>)"
    "playingHasCurrent (s\<lparr>progress := p\<rparr>)" for d p
    using assms by (simp_all add: playingHasCurrent_def)
  show "playingHasCurrent (setAudioData s)"
    using assms frame by (simp add: setAudioData_def split: option.splits)
  show "playingHasCurrent (handleTimeUpdate s)"
    using assms frame by (simp add: handleTimeUpdate_def split: option.splits)
  show "playingHasCurrent (handleEnded pick s)"
    using assms by (simp add: handleEnded_def playingHasCurrent_playNext split: option.splits)
qed

lemma playingHasCurrent_onNotification:
  "playingHasCurrent s \<Longrightarrow> playingHasCurrent (onNotification pick n s)"
  by (cases n) (simp_all add: playingHasCurrent_listeners)

lemma playingHasCurrent_autoPlayEffect:
  "playingHasCurrent s \<Longrightarrow> playingHasCurrent (autoPlayEffect s)"
  by (simp add: autoPlayEffect_def playingHasCurrent_playTrack split: option.splits)

lemma playingHasCurrent_togglePlayPause:
  assumes "playingHasCurrent s" and "currentTrackIndex s \<noteq> None \<or> tracks s \<noteq> []"
  shows "playingHasCurrent (togglePlayPause s)"
proof (cases "currentTrackIndex s")
  case None
  then have "togglePlayPause s = playTrack 0 (setupAudioContext s)"
    using assms(2) by (simp add: togglePlayPause_unfold)
  moreover have "playingHasCurrent (setupAudioContext s)"
    using assms(1) by (auto simp: setupAudioContext_def playingHasCurrent_def split: if_splits)
  ultimately show ?thesis
    by (simp add: playingHasCurrent_playTrack)
next
  case (Some i)
  then show ?thesis
    by (simp add: togglePlayPause_unfold setupAudioContext_def playingHasCurrent_def
        split: option.splits)
qed

lemma currentTrack_index: "currentTrack s \<noteq> None \<Longrightarrow> currentTrackIndex s \<noteq> None"
  by (cases "currentTrackIndex s") (simp_all add: currentTrack_def)

lemma currentTrack_empty_queue: "tracks s = [] \<Longrightarrow> currentTrack s = None"
  by (cases "currentTrackIndex s") (simp_all add: currentTrack_def trackAt_def)

lemma playingHasCurrent_dispatch_unguarded:
  assumes "playingHasCurrent s" and "e \<noteq> PlayPauseClicked"
  shows "playingHasCurrent (dispatch e s)"
  using assms
  by (cases e)
    (simp_all add: playingHasCurrent_handleFileChange playingHasCurrent_playTrack
      playingHasCurrent_playNext playingHasCurrent_playPrev playingHasCurrent_other_handlers
      playingHasCurrent_onNotification playingHasCurrent_autoPlayEffect)

lemma playingHasCurrent_step:
  assumes "playingHasCurrent s"
  shows "playingHasCurrent (delivered e s)"
proof (cases "e = PlayPauseClicked")
  case True
  show ?thesis
  proof (cases "currentTrack s")
    case None
    then show ?thesis
      using assms True by (simp add: delivered_def)
  next
    case (Some t)
    then have "currentTrackIndex s \<noteq> None"
      using currentTrack_index [of s] by simp
    then show ?thesis
      using assms True Some by (simp add: delivered_def playingHasCurrent_togglePlayPause)
  qed
next
  case False
  then show ?thesis
    using assms by (simp add: delivered_def playingHasCurrent_dispatch_unguarded)
qed

lemma playingHasCurrent_syncedApp: "playingHasCurrent syncedApp"
  by (simp add: playingHasCurrent_def syncedApp_def volumeEffect_def mountedApp_def
      initialApp_def)

lemma playingHasCurrent_reachable: "reachable s \<Longrightarrow> playingHasCurrent s"
  by (induction rule: reachable.induct)
    (simp_all add: playingHasCurrent_syncedApp playingHasCurrent_step)

text \<open>The concrete runs are runs of the page.\<close>

lemma playingA_queue: "tracks playingA = [trackA, trackB, trackC]" "audioRef playingA \<noteq> None"
  by (simp_all add: run_defs)

lemma reachable_runs: "reachable playingA" "reachable playingC" "reachable endedApp"
proof -
  have "reachable (delivered Rendered (delivered (FilesPicked (Some [trackA, trackB, trackC])) syncedApp))"
    by (intro reachable.step reachable.start)
  then show a: "reachable playingA"
    by (simp add: delivered_def playingA_def loadedApp_def)
  have "reachable (delivered (TrackClicked 2) playingA)"
    using a by (rule reachable.step)
  then show c: "reachable playingC"
    by (simp add: delivered_def playingC_def playingA_queue)
  have "reachable (delivered (Notified 0 Ended) playingC)"
    using c by (rule reachable.step)
  moreover have "audioRef playingC \<noteq> None"
    using playingA_queue by (auto simp: playingC_def playTrack_def Let_def)
  ultimately show "reachable endedApp"
    by (auto simp: delivered_def endedApp_def handleEnded_def)
qed

text \<open>The two cases of \<^const>\<open>togglePlayPause\<close> that have a track to work on.\<close>

lemma togglePlayPause_selects_first:
  assumes "currentTrackIndex s = None" and "tracks s \<noteq> []"
  shows "togglePlayPause s = playTrack 0 (setupAudioContext s)"
    and "transportState (togglePlayPause s) = transportState (playTrack 0 s)"
  using assms
  by (simp_all add: togglePlayPause_unfold setupAudioContext_def playTrack_def transportState_def
      Let_def split: option.splits)

lemma togglePlayPause_toggles:
  assumes "currentTrackIndex s \<noteq> None" and "audioRef s \<noteq> None"
  shows "isPlaying (togglePlayPause s) = (\<not> isPlaying s)"
    and "currentTrackIndex (togglePlayPause s) = currentTrackIndex s"
  using assms
  by (auto simp: togglePlayPause_unfold setupAudioContext_def split: option.splits)

section \<open>Claims\<close>

text \<open>
  C1. \<^verbatim>\<open>playNext()\<close> in linear mode, on a non-empty queue whose current index is empty or
  valid. Under repeat-one with a current track it is \<^verbatim>\<open>playTrack\<close> of the same index: the
  index stays, the state is playing, and the element is given that track's source again,
  loaded once more and started. Otherwise the next index is the current one plus 1 (0 when
  there is none, see C9): in range it is played with \<^verbatim>\<open>playTrack\<close>; past the end repeat-all
  plays index 0, and any other mode stops: not playing, no current index, nothing else
  touched.
\<close>

theorem playNext_linear_policy:
  assumes "tracks s \<noteq> []" and "\<not> isShuffle s" and "indexValid s"
  shows
    "if repeatMode s = RepeatOne \<and> currentTrackIndex s \<noteq> None
     then playNext pick s = playTrack (the (currentTrackIndex s)) s
          \<and> currentTrackIndex (playNext pick s) = currentTrackIndex s
          \<and> isPlaying (playNext pick s)
          \<and> audioRef (playNext pick s)
              = map_option
                  (\<lambda>a. play (load (a\<lparr>src := url (tracks s ! nat (the (currentTrackIndex s)))\<rparr>)))
                  (audioRef s)
     else if (case currentTrackIndex s of None \<Rightarrow> 0 | Some i \<Rightarrow> i + 1) < int (length (tracks s))
     then playNext pick s
            = playTrack (case currentTrackIndex s of None \<Rightarrow> 0 | Some i \<Rightarrow> i + 1) s
          \<and> currentTrackIndex (playNext pick s)
            = Some (case currentTrackIndex s of None \<Rightarrow> 0 | Some i \<Rightarrow> i + 1)
          \<and> isPlaying (playNext pick s)
     else if repeatMode s = RepeatAll
     then playNext pick s = playTrack 0 s
          \<and> currentTrackIndex (playNext pick s) = Some 0 \<and> isPlaying (playNext pick s)
     else playNext pick s = s\<lparr>isPlaying := False, currentTrackIndex := None\<rparr>
          \<and> currentTrackIndex (playNext pick s) = None \<and> \<not> isPlaying (playNext pick s)"
proof (cases "currentTrackIndex s")
  case None
  have len: "0 < int (length (tracks s))"
    using assms(1) by simp
  have "playNext pick s = playTrack 0 s"
    using assms None len by (simp add: playNext_def)
  then show ?thesis
    using None len playTrack_valid [of 0 s] by simp
next
  case (Some i)
  have range: "0 \<le> i" "i < int (length (tracks s))"
    using assms(3) Some by (simp_all add: indexValid_def)
  show ?thesis
  proof (cases "repeatMode s = RepeatOne")
    case True
    then have eq: "playNext pick s = playTrack i s"
      using assms(1) Some by (simp add: playNext_def)
    have elem: "audioRef (playTrack i s)
        = map_option (\<lambda>a. play (load (a\<lparr>src := url (tracks s ! nat i)\<rparr>))) (audioRef s)"
      using range by (simp add: playTrack_def Let_def split: option.splits)
    show ?thesis
      using True Some range eq elem playTrack_valid [of i s] by simp
  next
    case notOne: False
    show ?thesis
    proof (cases "i + 1 < int (length (tracks s))")
      case True
      then have "playNext pick s = playTrack (i + 1) s"
        using assms(1,2) Some notOne by (simp add: playNext_def)
      then show ?thesis
        using True Some notOne range playTrack_valid [of "i + 1" s] by simp
    next
      case atEnd: False
      show ?thesis
      proof (cases "repeatMode s = RepeatAll")
        case True
        then have "playNext pick s = playTrack 0 s"
          using assms(1,2) Some atEnd by (simp add: playNext_def)
        then show ?thesis
          using True Some atEnd range assms(1) playTrack_valid [of 0 s] by simp
      next
        case False
        then have "playNext pick s = s\<lparr>isPlaying := False, currentTrackIndex := None\<rparr>"
          using assms(1,2) Some atEnd notOne by (simp add: playNext_def)
        then show ?thesis
          using False Some atEnd notOne by simp
      qed
    qed
  qed
qed

theorem playNext_linear_policy_witness:
  "tracks playingA \<noteq> [] \<and> \<not> isShuffle playingA \<and> indexValid playingA
   \<and> currentTrackIndex playingA = Some 0
   \<and> map_option loads (audioRef playingA) = Some 1
   \<and> currentTrackIndex (playNext 0 (playingA\<lparr>repeatMode := RepeatOne\<rparr>)) = Some 0
   \<and> isPlaying (playNext 0 (playingA\<lparr>repeatMode := RepeatOne\<rparr>))
   \<and> map_option loads (audioRef (playNext 0 (playingA\<lparr>repeatMode := RepeatOne\<rparr>))) = Some 2
   \<and> map_option src (audioRef (playNext 0 (playingA\<lparr>repeatMode := RepeatOne\<rparr>))) = Some ''blob:a''
   \<and> currentTrackIndex (playNext 0 playingA) = Some 1
   \<and> isPlaying (playNext 0 playingA)
   \<and> map_option src (audioRef (playNext 0 playingA)) = Some ''blob:b''
   \<and> currentTrackIndex playingC = Some 2
   \<and> currentTrackIndex (playNext 0 (playingC\<lparr>repeatMode := RepeatAll\<rparr>)) = Some 0
   \<and> isPlaying (playNext 0 (playingC\<lparr>repeatMode := RepeatAll\<rparr>))
   \<and> currentTrackIndex (playNext 0 playingC) = None
   \<and> \<not> isPlaying (playNext 0 playingC)"
  using playNext_linear_policy [of playingA 0]
    playNext_linear_policy [of "playingA\<lparr>repeatMode := RepeatOne\<rparr>" 0]
    playNext_linear_policy [of "playingC\<lparr>repeatMode := RepeatAll\<rparr>" 0]
    playNext_linear_policy [of playingC 0]
  by (simp add: run_defs indexValid_def)

text \<open>
  C2. The transport invariant, playing implies a current index, holds in the initial state
  and after the first commit. Every event the page delivers keeps it, whatever the state.
  Every handler other than \<^verbatim>\<open>togglePlayPause\<close> keeps it even when called where its control
  is disabled; \<^verbatim>\<open>togglePlayPause\<close> is called by a button that is disabled without a current
  track, and with a current track it keeps the invariant. So the invariant holds in every
  state the page can reach.
\<close>

theorem playingHasCurrent_invariant:
  "playingHasCurrent initialApp
   \<and> playingHasCurrent syncedApp
   \<and> (playingHasCurrent s \<longrightarrow> playingHasCurrent (delivered e s))
   \<and> (playingHasCurrent s \<and> e \<noteq> PlayPauseClicked \<longrightarrow> playingHasCurrent (dispatch e s))
   \<and> (playingHasCurrent s \<and> currentTrack s \<noteq> None \<longrightarrow> playingHasCurrent (togglePlayPause s))
   \<and> (reachable r \<longrightarrow> playingHasCurrent r)"
proof -
  have toggle: "playingHasCurrent (togglePlayPause s)"
    if "playingHasCurrent s" and "currentTrack s \<noteq> None"
    using that currentTrack_index [of s] by (simp add: playingHasCurrent_togglePlayPause)
  show ?thesis
    using toggle playingHasCurrent_initial(1) playingHasCurrent_syncedApp
      playingHasCurrent_step [of s e] playingHasCurrent_dispatch_unguarded [of s e]
      playingHasCurrent_reachable [of r]
    by blast
qed

theorem playingHasCurrent_invariant_witness:
  "playingHasCurrent syncedApp
   \<and> playingHasCurrent (delivered PlayPauseClicked syncedApp)
   \<and> playingHasCurrent playingA \<and> isPlaying playingA \<and> currentTrack playingA = Some trackA
   \<and> playingHasCurrent (togglePlayPause playingA)
   \<and> \<not> isPlaying (delivered PlayPauseClicked playingA)
   \<and> playingHasCurrent (dispatch (NextClicked 0) playingC)
   \<and> currentTrackIndex (dispatch (NextClicked 0) playingC) = None
   \<and> reachable playingA"
proof -
  show ?thesis
    using reachable_runs(1)
      playingHasCurrent_invariant [of syncedApp PlayPauseClicked playingA]
      playingHasCurrent_invariant [of playingA PlayPauseClicked playingA]
      playingHasCurrent_invariant [of playingC "NextClicked 0" playingA]
    by (simp add: run_defs delivered_def currentTrack_def trackAt_def togglePlayPause_unfold
        setupAudioContext_def playingHasCurrent_def)
qed

text \<open>
  C3, as the code has it. \<^verbatim>\<open>handleProgressChange\<close> stores the time it is given, unchanged,
  as the position and leaves the duration alone; it has no clamp (the slider that calls it
  is bounded by 0 and the duration). So a time between 0 and the duration gives a position
  between 0 and the duration.
\<close>

theorem handleProgressChange_keeps_value:
  assumes "audioRef s \<noteq> None"
  shows "progress (handleProgressChange t s) = t
       \<and> duration (handleProgressChange t s) = duration s
       \<and> (0 \<le> t \<and> t \<le> duration s \<longrightarrow>
            0 \<le> progress (handleProgressChange t s)
            \<and> progress (handleProgressChange t s) \<le> duration (handleProgressChange t s))"
  using assms by (auto simp: handleProgressChange_def)

theorem handleProgressChange_keeps_value_witness:
  "audioRef readyA \<noteq> None \<and> duration readyA = 200
   \<and> (0::real) \<le> 100 \<and> 100 \<le> duration readyA
   \<and> progress (handleProgressChange 100 readyA) = 100
   \<and> duration (handleProgressChange 100 readyA) = 200"
  using handleProgressChange_keeps_value [of readyA 100]
  by (simp add: run_defs handleProgressChange_def)

text \<open>
  As written, claim C3 fails: with duration 200, seeking to -5 leaves the position at -5,
  not 0, and seeking to 500 leaves it at 500, not 200.
\<close>

theorem seek_outside_range_not_clamped:
  "duration readyA = 200
   \<and> progress (handleProgressChange (- 5) readyA) = - 5
   \<and> \<not> 0 \<le> progress (handleProgressChange (- 5) readyA)
   \<and> progress (handleProgressChange 500 readyA) = 500
   \<and> \<not> progress (handleProgressChange 500 readyA) \<le> duration (handleProgressChange 500 readyA)"
  by (simp add: run_defs handleProgressChange_def)

text \<open>
  C4, as the code has it. The play button is disabled while there is no current track, so
  without one the command is not delivered and the state stays as it is: with an empty
  queue, and also with tracks in the queue and none selected. With a current track (and the
  element mounted) the command is \<^verbatim>\<open>togglePlayPause\<close>, which negates \<^verbatim>\<open>isPlaying\<close> and
  leaves the seven other transport cells alone. The handler's first branch, which for no
  current index and a non-empty queue does what \<^verbatim>\<open>playTrack(0)\<close> does, is there but is
  not reached from the page.
\<close>

theorem togglePlayPause_command:
  "(currentTrack s = None \<longrightarrow> \<not> enabled PlayPauseClicked s \<and> delivered PlayPauseClicked s = s)
   \<and> (tracks s = [] \<longrightarrow> currentTrack s = None)
   \<and> (currentTrack s \<noteq> None \<and> audioRef s \<noteq> None \<longrightarrow>
        delivered PlayPauseClicked s = togglePlayPause s
        \<and> transportState (togglePlayPause s) = transportState (s\<lparr>isPlaying := \<not> isPlaying s\<rparr>))
   \<and> (currentTrackIndex s = None \<and> tracks s \<noteq> [] \<longrightarrow>
        togglePlayPause s = playTrack 0 (setupAudioContext s)
        \<and> transportState (togglePlayPause s) = transportState (playTrack 0 s))"
proof -
  have off: "\<not> enabled PlayPauseClicked s \<and> delivered PlayPauseClicked s = s"
    if "currentTrack s = None"
    using that by (simp add: delivered_def)
  have on: "delivered PlayPauseClicked s = togglePlayPause s
      \<and> transportState (togglePlayPause s) = transportState (s\<lparr>isPlaying := \<not> isPlaying s\<rparr>)"
    if "currentTrack s \<noteq> None" and "audioRef s \<noteq> None"
  proof -
    have "currentTrackIndex s \<noteq> None"
      using that(1) by (rule currentTrack_index)
    then show ?thesis
      using that
      by (auto simp: delivered_def togglePlayPause_unfold setupAudioContext_def
          transportState_def split: option.splits)
  qed
  show ?thesis
    using off on currentTrack_empty_queue [of s] togglePlayPause_selects_first [of s]
    by blast
qed

theorem togglePlayPause_command_witness:
  "tracks syncedApp = [] \<and> currentTrack syncedApp = None
   \<and> delivered PlayPauseClicked syncedApp = syncedApp
   \<and> currentTrack playingA = Some trackA \<and> audioRef playingA \<noteq> None \<and> isPlaying playingA
   \<and> \<not> isPlaying (delivered PlayPauseClicked playingA)
   \<and> currentTrackIndex (delivered PlayPauseClicked playingA) = Some 0
   \<and> currentTrackIndex endedApp = None \<and> tracks endedApp \<noteq> []
   \<and> currentTrackIndex (togglePlayPause endedApp) = Some 0
   \<and> isPlaying (togglePlayPause endedApp)"
  using togglePlayPause_command [of syncedApp] togglePlayPause_command [of playingA]
    togglePlayPause_command [of endedApp]
  by (simp add: run_defs delivered_def currentTrack_def trackAt_def togglePlayPause_unfold
      setupAudioContext_def transportState_def)

text \<open>
  As written, claim C4 fails whichever way the command is read. As the page delivers it:
  after C has ended, a state the page reaches, the queue holds three tracks and nothing is
  selected; the play button is disabled and the state stays as it is, while
  \<^verbatim>\<open>playTrack(0)\<close> would select index 0 and play. As the bare handler: called on the empty queue of the mounted player it turns
  \<^verbatim>\<open>isPlaying\<close> on.
\<close>

theorem togglePlayPause_neither_reading:
  "reachable endedApp
   \<and> currentTrackIndex endedApp = None
   \<and> tracks endedApp \<noteq> []
   \<and> \<not> enabled PlayPauseClicked endedApp
   \<and> delivered PlayPauseClicked endedApp = endedApp
   \<and> \<not> isPlaying endedApp
   \<and> isPlaying (playTrack 0 endedApp)
   \<and> transportState (playTrack 0 endedApp) \<noteq> transportState endedApp
   \<and> tracks syncedApp = []
   \<and> \<not> isPlaying syncedApp
   \<and> isPlaying (togglePlayPause syncedApp)
   \<and> transportState (togglePlayPause syncedApp) \<noteq> transportState syncedApp"
  using reachable_runs(3)
  by (simp add: run_defs delivered_def currentTrack_def trackAt_def togglePlayPause_unfold
      setupAudioContext_def transportState_def)

text \<open>
  C5, as the code has it. A call of \<^verbatim>\<open>playTrack(i)\<close> always returns normally. With
  \<open>0 \<le> i < size\<close> the state it leaves has current index \<open>i\<close> and is playing; with any other
  \<open>i\<close> the state is unchanged, and no error is raised or reported.
\<close>

theorem playTrack_selects_or_ignores:
  "playTrackResult i s = Inr (playTrack i s)
   \<and> (0 \<le> i \<and> i < int (length (tracks s)) \<longrightarrow>
        currentTrackIndex (playTrack i s) = Some i \<and> isPlaying (playTrack i s))
   \<and> (\<not> (0 \<le> i \<and> i < int (length (tracks s))) \<longrightarrow> playTrack i s = s)"
  using playTrackResult_returns [of i s] playTrack_valid [of i s] playTrack_invalid [of i s]
  by blast

theorem playTrack_selects_or_ignores_witness:
  "(0::int) \<le> 1 \<and> 1 < int (length (tracks playingA))
   \<and> currentTrackIndex (playTrack 1 playingA) = Some 1 \<and> isPlaying (playTrack 1 playingA)
   \<and> \<not> 3 < int (length (tracks playingA))
   \<and> playTrackResult 3 playingA = Inr playingA"
  using playTrack_selects_or_ignores [of 1 playingA] playTrack_selects_or_ignores [of 3 playingA]
  by (simp add: run_defs)

text \<open>
  As written, claim C5 fails: on the queue [A, B, C] the calls \<^verbatim>\<open>playTrack(3)\<close> and
  \<^verbatim>\<open>playTrack(-1)\<close> do not end in an error; they return normally.
\<close>

theorem playTrack_out_of_range_returns_normally:
  "length (tracks playingA) = 3
   \<and> \<not> isl (playTrackResult 3 playingA)
   \<and> playTrackResult 3 playingA = Inr playingA
   \<and> \<not> isl (playTrackResult (- 1) playingA)
   \<and> playTrackResult (- 1) playingA = Inr playingA"
  by (simp add: run_defs playTrackResult_def)

text \<open>
  C7. \<^verbatim>\<open>playPrev()\<close> does nothing on an empty queue or without a current index. With a
  queue of \<open>size\<close> tracks and a current index \<open>i\<close> that is not negative (as every valid
  index is) it selects \<open>(i - 1 + size) mod size\<close> and plays; from index 0 that is the last
  track. The repeat mode plays no part.
\<close>

theorem playPrev_wraps:
  "(tracks s = [] \<or> currentTrackIndex s = None \<longrightarrow> playPrev s = s)
   \<and> (tracks s \<noteq> [] \<and> currentTrackIndex s = Some i \<and> 0 \<le> i \<longrightarrow>
        currentTrackIndex (playPrev s)
          = Some ((i - 1 + int (length (tracks s))) mod int (length (tracks s)))
        \<and> isPlaying (playPrev s)
        \<and> currentTrackIndex (playPrev (s\<lparr>repeatMode := m\<rparr>)) = currentTrackIndex (playPrev s))"
proof (rule conjI; rule impI)
  assume "tracks s = [] \<or> currentTrackIndex s = None"
  then show "playPrev s = s"
    by (auto simp: playPrev_def split: option.splits)
next
  assume h: "tracks s \<noteq> [] \<and> currentTrackIndex s = Some i \<and> 0 \<le> i"
  define n where "n = int (length (tracks s))"
  define j where "j = (i - 1 + n) mod n"
  have n: "0 < n"
    using h by (simp add: n_def)
  have sum: "0 \<le> i - 1 + n"
    using h n by simp
  have j: "0 \<le> j" "j < n"
    using n by (simp_all add: j_def)
  have rem: "jsRem (i - 1 + n) n = j"
    using sum n by (simp add: jsRem_nonneg j_def)
  have prev: "playPrev s = playTrack j s"
    using h rem by (simp add: playPrev_def n_def)
  have prev_m: "playPrev (s\<lparr>repeatMode := m\<rparr>) = playTrack j (s\<lparr>repeatMode := m\<rparr>)"
    using h rem by (simp add: playPrev_def n_def)
  have sel: "currentTrackIndex (playTrack j s) = Some j" "isPlaying (playTrack j s)"
    using j playTrack_valid [of j s] by (simp_all add: n_def)
  have sel_m: "currentTrackIndex (playTrack j (s\<lparr>repeatMode := m\<rparr>)) = Some j"
    using j playTrack_valid [of j "s\<lparr>repeatMode := m\<rparr>"] by (simp add: n_def)
  show "currentTrackIndex (playPrev s)
          = Some ((i - 1 + int (length (tracks s))) mod int (length (tracks s)))
        \<and> isPlaying (playPrev s)
        \<and> currentTrackIndex (playPrev (s\<lparr>repeatMode := m\<rparr>)) = currentTrackIndex (playPrev s)"
    using prev prev_m sel sel_m by (simp add: j_def n_def)
qed

theorem playPrev_wraps_witness:
  "tracks syncedApp = [] \<and> playPrev syncedApp = syncedApp
   \<and> currentTrackIndex endedApp = None \<and> playPrev endedApp = endedApp
   \<and> tracks playingA \<noteq> [] \<and> currentTrackIndex playingA = Some 0
   \<and> currentTrackIndex (playPrev playingA) = Some 2
   \<and> isPlaying (playPrev playingA)
   \<and> currentTrackIndex (playPrev (playingA\<lparr>repeatMode := RepeatOne\<rparr>)) = Some 2"
  using playPrev_wraps [of syncedApp 0 RepeatOff] playPrev_wraps [of endedApp 0 RepeatOff]
    playPrev_wraps [of playingA 0 RepeatOne]
  by (simp add: run_defs)

text \<open>
  C8, as the code has it. \<^verbatim>\<open>handleVolumeChange(v)\<close> stores \<open>v\<close>, marks muted for \<open>v = 0\<close>
  and unmuted for \<open>v > 0\<close>. \<^verbatim>\<open>toggleMute()\<close> never changes the stored volume: from an
  unmuted state with an element, one call mutes and gives the element volume 0, a second
  call unmutes and gives the element the stored volume. After \<^verbatim>\<open>handleVolumeChange(0)\<close> the
  stored volume is 0, and \<^verbatim>\<open>toggleMute()\<close> then unmutes with element volume 0.
\<close>

theorem volume_and_mute:
  "isMuted (handleVolumeChange 0 s)
   \<and> volume (handleVolumeChange v s) = v
   \<and> (0 < v \<longrightarrow> \<not> isMuted (handleVolumeChange v s))
   \<and> volume (toggleMute s) = volume s
   \<and> (\<not> isMuted s \<and> audioRef s \<noteq> None \<longrightarrow>
        isMuted (toggleMute s)
        \<and> outputVolume (toggleMute s) = Some 0
        \<and> \<not> isMuted (toggleMute (toggleMute s))
        \<and> outputVolume (toggleMute (toggleMute s)) = Some (volume s))
   \<and> (audioRef s \<noteq> None \<longrightarrow>
        \<not> isMuted (toggleMute (handleVolumeChange 0 s))
        \<and> volume (toggleMute (handleVolumeChange 0 s)) = 0
        \<and> outputVolume (toggleMute (handleVolumeChange 0 s)) = Some 0)"
  by (auto simp: handleVolumeChange_def toggleMute_def outputVolume_def)

theorem volume_and_mute_witness:
  "(0::real) < 0.5 \<and> \<not> isMuted (handleVolumeChange 0.5 syncedApp)
   \<and> \<not> isMuted syncedApp \<and> audioRef syncedApp \<noteq> None \<and> volume syncedApp = 0.75
   \<and> isMuted (toggleMute syncedApp)
   \<and> outputVolume (toggleMute syncedApp) = Some 0
   \<and> \<not> isMuted (toggleMute (toggleMute syncedApp))
   \<and> outputVolume (toggleMute (toggleMute syncedApp)) = Some 0.75"
  using volume_and_mute [of syncedApp "0.5"]
  by (simp add: run_defs handleVolumeChange_def toggleMute_def outputVolume_def)

text \<open>
  As written, claim C8 fails when the muting is done by setting the volume to 0: the
  stored volume 0.75 is overwritten, and unmuting with \<^verbatim>\<open>toggleMute()\<close> gives the element
  volume 0, not 0.75.
\<close>

theorem volume_zero_forgets_previous_volume:
  "volume syncedApp = 0.75
   \<and> outputVolume syncedApp = Some 0.75
   \<and> isMuted (handleVolumeChange 0 syncedApp)
   \<and> \<not> isMuted (toggleMute (handleVolumeChange 0 syncedApp))
   \<and> volume (toggleMute (handleVolumeChange 0 syncedApp)) = 0
   \<and> outputVolume (toggleMute (handleVolumeChange 0 syncedApp)) = Some 0"
  by (simp add: run_defs handleVolumeChange_def toggleMute_def outputVolume_def)

text \<open>
  C9. In linear mode (no shuffle), with a non-empty queue and no current index,
  \<^verbatim>\<open>playNext()\<close> selects index 0 and starts playing, whatever the repeat mode: the missing
  index counts as the position before the first track.
\<close>

theorem playNext_from_none_selects_first:
  assumes "tracks s \<noteq> []" and "\<not> isShuffle s" and "currentTrackIndex s = None"
  shows "playNext pick s = playTrack 0 s
       \<and> currentTrackIndex (playNext pick s) = Some 0
       \<and> isPlaying (playNext pick s)"
proof -
  have len: "0 < int (length (tracks s))"
    using assms(1) by simp
  have "playNext pick s = playTrack 0 s"
    using assms len by (simp add: playNext_def)
  then show ?thesis
    using playTrack_valid [of 0 s] len by simp
qed

theorem playNext_from_none_selects_first_witness:
  "tracks endedApp \<noteq> []
   \<and> \<not> isShuffle endedApp
   \<and> currentTrackIndex endedApp = None
   \<and> currentTrackIndex (playNext 0 endedApp) = Some 0
   \<and> isPlaying (playNext 0 endedApp)"
  using playNext_from_none_selects_first [of endedApp 0]
  by (simp add: run_defs)

text \<open>
  C10. \<^verbatim>\<open>toggleMute()\<close> leaves the stored volume alone, and two calls in a row bring
  \<^verbatim>\<open>isMuted\<close>, the volume and every other cell of the transport state back to where
  they were.
\<close>

theorem toggleMute_involution:
  "volume (toggleMute s) = volume s
   \<and> isMuted (toggleMute (toggleMute s)) = isMuted s
   \<and> volume (toggleMute (toggleMute s)) = volume s
   \<and> transportState (toggleMute (toggleMute s)) = transportState s"
  by (simp add: toggleMute_def transportState_def)

end
